theory Spec2Isabelle
  imports Main
begin

section \<open>Rectangle\<close>

text \<open>
  The constructor \<open>Rectangle\<close> of \<open>08-objects-tasks.js\<close> stores its two arguments;
  \<open>getArea\<close> multiplies the stored fields. The number type is a parameter: the
  multiplication is whatever the numbers of the program have (for JavaScript, that of
  IEEE doubles), and nothing below depends on which one it is.
\<close>

record 'n Rectangle =
  width :: 'n
  height :: 'n

definition Rectangle :: "'n \<Rightarrow> 'n \<Rightarrow> 'n Rectangle" where
  "Rectangle w h = \<lparr>width = w, height = h\<rparr>"

definition getArea :: "('n::times) Rectangle \<Rightarrow> 'n" where
  "getArea this = width this * height this"

section \<open>Errors\<close>

text \<open>
  A thrown exception is a value: \<open>Error msg\<close> is \<open>new Error(msg)\<close>,
  \<open>SyntaxError msg\<close> is what \<open>JSON.parse\<close> throws on a text that is not JSON, and
  \<open>TypeError key\<close> is what \<open>Object.assign\<close> throws when the property \<open>key\<close> cannot
  be set (the wording of its message differs between engines; the key that was refused
  stands in its place). A function that may throw returns \<open>Inl\<close> of the error or
  \<open>Inr\<close> of its result. A thrown error leaves the rest of a function body, and of a
  call chain, unexecuted.
\<close>

datatype error = Error string | SyntaxError string | TypeError string

definition then_call :: "error + 'a \<Rightarrow> ('a \<Rightarrow> error + 'b) \<Rightarrow> error + 'b" where
  "then_call r f = (case r of Inl e \<Rightarrow> Inl e | Inr x \<Rightarrow> f x)"

section \<open>JSON conversion\<close>

text \<open>
  A plain structured value, as \<open>JSON.parse\<close> returns it: an object is the list of its
  own properties in enumeration order. Numbers are of the parameter type \<open>'n\<close>.
\<close>

datatype 'n json =
  JNull | JBool bool | JNumber 'n | JString string
  | JArray "'n json list" | JObject "(string \<times> 'n json) list"

text \<open>
  \<open>getJSON\<close> and \<open>fromJSON\<close> delegate to \<open>JSON.stringify\<close> and \<open>JSON.parse\<close>.
  Both belong to the language runtime and not to the repository, so they are parameters
  of the two functions: \<open>JSON_stringify\<close> maps a value to its text, \<open>JSON_parse\<close>
  maps a text to the parsed value or to the \<open>SyntaxError\<close> it throws.
\<close>

definition getJSON :: "('n json \<Rightarrow> string) \<Rightarrow> 'n json \<Rightarrow> string" where
  "getJSON JSON_stringify obj = JSON_stringify obj"

text \<open>
  \<open>Object.assign\<close> sets each property on the target, and setting looks the key up
  along the prototype chain of the target. What the chain holds under a key is one of:
  nothing; a data property, writable or read-only; an accessor property, with a setter
  or with a getter alone; or the accessor \<open>__proto__\<close> that \<open>Object.prototype\<close>
  itself defines. A setter is code of the prototype's author: it receives the value and
  the own properties of the target, and returns the own properties it leaves, or throws.
\<close>

datatype 'n slot =
  Absent
  | Data bool
  | Accessor "('n json \<Rightarrow> (string \<times> 'n json) list \<Rightarrow> error + (string \<times> 'n json) list) option"
  | Proto_accessor

text \<open>
  The prototype handed to \<open>fromJSON\<close>: what it and the objects it inherits from hold
  under each key, up to and excluding \<open>Object.prototype\<close>, and whether the chain ends
  in \<open>Object.prototype\<close> (as the chain of every prototype of a function or class does)
  or in \<open>null\<close>. For \<open>Rectangle.prototype\<close> the keys \<open>constructor\<close> and \<open>getArea\<close>
  are writable data properties and every other key is absent; a class with
  \<open>get area() {...}\<close> and no setter holds \<open>Accessor None\<close> under \<open>area\<close>.
\<close>

record 'n shape =
  properties :: "string \<Rightarrow> 'n slot"
  inherits_Object_prototype :: bool

text \<open>
  An object as \<open>fromJSON\<close> builds it: its prototype and its own properties in
  order. The prototype is the shape given, or, once the \<open>__proto__\<close> setter has run,
  the parsed object or array that was assigned, or \<open>null\<close>.
\<close>

datatype 'n proto = Shape "'n shape" | Plain "'n json" | Null

record 'n object =
  prototype :: "'n proto"
  own :: "(string \<times> 'n json) list"

definition Object_create :: "'n shape \<Rightarrow> 'n object" where
  "Object_create proto = \<lparr>prototype = Shape proto, own = []\<rparr>"

text \<open>
  \<open>Object.assign(target, source)\<close> reads the own enumerable properties of the source
  in order and sets each on the target. A primitive source is wrapped first: \<open>null\<close>
  is skipped, a boolean or a number has no own enumerable property, a string has its
  characters under the indices \<open>0\<close>, \<open>1\<close>, ... and an array its elements. A property
  index is the decimal numeral of the position.
\<close>

function decimal :: "nat \<Rightarrow> string" where
  "decimal n = (if n < 10 then [''0123456789'' ! n]
                else decimal (n div 10) @ [''0123456789'' ! (n mod 10)])"
  by pat_completeness auto
termination
  by (relation "measure id") auto

declare decimal.simps [simp del]

fun own_enumerable :: "'n json \<Rightarrow> (string \<times> 'n json) list" where
  "own_enumerable JNull = []"
| "own_enumerable (JBool b) = []"
| "own_enumerable (JNumber n) = []"
| "own_enumerable (JString s) = zip (map decimal [0..<length s]) (map (\<lambda>c. JString [c]) s)"
| "own_enumerable (JArray xs) = zip (map decimal [0..<length xs]) xs"
| "own_enumerable (JObject kvs) = kvs"

text \<open>
  What the chain of a prototype holds under a key. The accessor of \<open>Object.prototype\<close>
  is found under \<open>__proto__\<close> when nothing nearer in the chain has that key. A parsed
  object or array that has become the prototype holds its own properties as writable
  data and inherits from \<open>Object.prototype\<close>, where every property but \<open>__proto__\<close>
  is writable data too.
\<close>

fun chain_slot :: "'n proto \<Rightarrow> string \<Rightarrow> 'n slot" where
  "chain_slot (Shape p) k =
     (case properties p k of
        Absent \<Rightarrow> if inherits_Object_prototype p \<and> k = ''__proto__'' then Proto_accessor
                  else Absent
      | Data writable \<Rightarrow> Data writable
      | Accessor setter \<Rightarrow> Accessor setter
      | Proto_accessor \<Rightarrow> Proto_accessor)"
| "chain_slot (Plain x) k =
     (if k \<in> fst ` set (own_enumerable x) then Data True
      else if k = ''__proto__'' then Proto_accessor else Absent)"
| "chain_slot Null k = Absent"

text \<open>
  The setter of \<open>__proto__\<close> replaces the prototype of the target by an object, an
  array or \<open>null\<close> and ignores any other value.
\<close>

fun proto_setter :: "'n object \<Rightarrow> 'n json \<Rightarrow> 'n object" where
  "proto_setter obj (JObject kvs) = obj\<lparr>prototype := Plain (JObject kvs)\<rparr>"
| "proto_setter obj (JArray xs) = obj\<lparr>prototype := Plain (JArray xs)\<rparr>"
| "proto_setter obj JNull = obj\<lparr>prototype := Null\<rparr>"
| "proto_setter obj x = obj"

text \<open>
  Defining an own property: an existing one keeps its place, a new one goes last.
\<close>

fun define_own :: "string \<Rightarrow> 'v \<Rightarrow> (string \<times> 'v) list \<Rightarrow> (string \<times> 'v) list" where
  "define_own k x [] = [(k, x)]"
| "define_own k x ((k', x') # ps) =
     (if k' = k then (k, x) # ps else (k', x') # define_own k x ps)"

text \<open>
  Setting one property, as \<open>Object.assign\<close> does it (a failed set throws). An own
  property of the target is overwritten. Otherwise the chain decides: a key that is
  absent or a writable data property there becomes an own property of the target; a
  read-only data property and an accessor without a setter refuse the assignment, which
  throws a \<open>TypeError\<close>; a setter is called, and what it throws is thrown on; the
  accessor \<open>__proto__\<close> replaces the prototype.
\<close>

fun Set_property :: "'n object \<Rightarrow> string \<times> 'n json \<Rightarrow> error + 'n object" where
  "Set_property obj (k, x) =
     (if k \<in> fst ` set (own obj) then Inr (obj\<lparr>own := define_own k x (own obj)\<rparr>)
      else case chain_slot (prototype obj) k of
        Absent \<Rightarrow> Inr (obj\<lparr>own := define_own k x (own obj)\<rparr>)
      | Data writable \<Rightarrow>
          if writable then Inr (obj\<lparr>own := define_own k x (own obj)\<rparr>)
          else Inl (TypeError k)
      | Accessor None \<Rightarrow> Inl (TypeError k)
      | Accessor (Some setter) \<Rightarrow>
          then_call (setter x (own obj)) (\<lambda>props. Inr (obj\<lparr>own := props\<rparr>))
      | Proto_accessor \<Rightarrow> Inr (proto_setter obj x))"

fun assign_all :: "'n object \<Rightarrow> (string \<times> 'n json) list \<Rightarrow> error + 'n object" where
  "assign_all target [] = Inr target"
| "assign_all target (kx # kvs) =
     then_call (Set_property target kx) (\<lambda>target. assign_all target kvs)"

definition Object_assign :: "'n object \<Rightarrow> 'n json \<Rightarrow> error + 'n object" where
  "Object_assign target source = assign_all target (own_enumerable source)"

definition fromJSON ::
  "(string \<Rightarrow> error + 'n json) \<Rightarrow> 'n shape \<Rightarrow> string \<Rightarrow> error + 'n object" where
  "fromJSON JSON_parse proto json =
     (let obj = Object_create proto
      in then_call (JSON_parse json)
           (\<lambda>parsed. then_call (Object_assign obj parsed) (\<lambda>obj. Inr obj)))"

text \<open>
  The keys of a JavaScript object are unique; the list that represents an object here
  has to say so.
\<close>

fun unique_keys :: "'n json \<Rightarrow> bool" where
  "unique_keys (JObject kvs) = distinct (map fst kvs)"
| "unique_keys x = True"

text \<open>
  How a slot of the chain answers an assignment: it lets the key become an own property,
  it refuses (a \<open>TypeError\<close>), or it runs a setter of the prototype's author. The
  accessor \<open>__proto__\<close> does none of the three, and does not throw.
\<close>

fun defines_own :: "'n slot \<Rightarrow> bool" where
  "defines_own Absent = True"
| "defines_own (Data writable) = writable"
| "defines_own (Accessor setter) = False"
| "defines_own Proto_accessor = False"

fun refuses :: "'n slot \<Rightarrow> bool" where
  "refuses Absent = False"
| "refuses (Data writable) = (\<not> writable)"
| "refuses (Accessor None) = True"
| "refuses (Accessor (Some setter)) = False"
| "refuses Proto_accessor = False"

fun runs_setter :: "'n slot \<Rightarrow> bool" where
  "runs_setter (Accessor (Some setter)) = True"
| "runs_setter s = False"

text \<open>
  Once the \<open>__proto__\<close> setter has run, the prototype of the target is a parsed value
  or \<open>null\<close>, and no longer the shape.
\<close>

fun is_parsed :: "'n proto \<Rightarrow> bool" where
  "is_parsed (Shape p) = False"
| "is_parsed (Plain x) = True"
| "is_parsed Null = True"

section \<open>The CSS selector builder\<close>

text \<open>
  The class \<open>Selector\<close> holds three fields. Its methods mutate the object and return
  it, or throw; here a method takes the object and returns either the thrown error or
  the object after the call. Selector parts are strings, \<open>seen\<close> is a set of strings,
  and the specificity counter is an integer.
\<close>

record Selector =
  specificity :: int
  parts :: "string list"
  seen :: "string set"

definition new_Selector :: Selector where
  "new_Selector = \<lparr>specificity = 0, parts = [], seen = {}\<rparr>"

definition duplicate_message :: string where
  "duplicate_message =
     ''Element, id and pseudo-element should not occur more than one time inside the selector''"

definition checkDuplicate :: "string \<Rightarrow> Selector \<Rightarrow> error + Selector" where
  "checkDuplicate val this =
     (if val \<in> seen this then Inl (Error duplicate_message)
      else Inr (this\<lparr>seen := insert val (seen this)\<rparr>))"

definition Selector_element :: "string \<Rightarrow> Selector \<Rightarrow> error + Selector" where
  "Selector_element val this =
     then_call (checkDuplicate ''element'' this)
       (\<lambda>s. Inr (s\<lparr>parts := parts s @ [val], specificity := specificity s + 1\<rparr>))"

definition Selector_id :: "string \<Rightarrow> Selector \<Rightarrow> error + Selector" where
  "Selector_id val this =
     then_call (checkDuplicate ''id'' this)
       (\<lambda>s. Inr (s\<lparr>parts := parts s @ [''#'' @ val], specificity := specificity s + 100\<rparr>))"

definition Selector_class :: "string \<Rightarrow> Selector \<Rightarrow> error + Selector" where
  "Selector_class val this =
     then_call (checkDuplicate ''class'' this)
       (\<lambda>s. Inr (s\<lparr>parts := parts s @ [''.'' @ val], specificity := specificity s + 10\<rparr>))"

definition Selector_attr :: "string \<Rightarrow> Selector \<Rightarrow> error + Selector" where
  "Selector_attr val this =
     then_call (checkDuplicate ''attr'' this)
       (\<lambda>s. Inr (s\<lparr>parts := parts s @ [''['' @ val @ '']''], specificity := specificity s + 1\<rparr>))"

definition Selector_pseudoClass :: "string \<Rightarrow> Selector \<Rightarrow> error + Selector" where
  "Selector_pseudoClass val this =
     then_call (checkDuplicate ''pseudoClass'' this)
       (\<lambda>s. Inr (s\<lparr>parts := parts s @ ['':'' @ val], specificity := specificity s + 1\<rparr>))"

definition Selector_pseudoElement :: "string \<Rightarrow> Selector \<Rightarrow> error + Selector" where
  "Selector_pseudoElement val this =
     then_call (checkDuplicate ''psuedoElement'' this)
       (\<lambda>s. Inr (s\<lparr>parts := parts s @ [''::'' @ val], specificity := specificity s + 0\<rparr>))"

text \<open>
  \<open>stringify\<close> joins the parts with the empty separator. It reads the object and leaves
  it as it is: the result is the string together with the object after the call.
\<close>

definition Selector_stringify :: "Selector \<Rightarrow> string \<times> Selector" where
  "Selector_stringify this = (concat (parts this), this)"

subsection \<open>The facade\<close>

definition cssSelectorBuilder_element :: "string \<Rightarrow> error + Selector" where
  "cssSelectorBuilder_element val = Selector_element val new_Selector"

definition cssSelectorBuilder_id :: "string \<Rightarrow> error + Selector" where
  "cssSelectorBuilder_id val =
     then_call (Selector_element '''' new_Selector) (Selector_id val)"

definition cssSelectorBuilder_class :: "string \<Rightarrow> error + Selector" where
  "cssSelectorBuilder_class val =
     then_call (Selector_element '''' new_Selector) (Selector_class val)"

definition cssSelectorBuilder_attr :: "string \<Rightarrow> error + Selector" where
  "cssSelectorBuilder_attr val =
     then_call (Selector_element '''' new_Selector) (Selector_attr val)"

definition cssSelectorBuilder_pseudoClass :: "string \<Rightarrow> error + Selector" where
  "cssSelectorBuilder_pseudoClass val =
     then_call (Selector_element '''' new_Selector) (Selector_pseudoClass val)"

definition cssSelectorBuilder_pseudoElement :: "string \<Rightarrow> error + Selector" where
  "cssSelectorBuilder_pseudoElement val =
     then_call (Selector_element '''' new_Selector) (Selector_pseudoElement val)"

text \<open>
  \<open>combine\<close> builds a new object (the constructor ignores its argument), pushes the
  parts of the first selector, a space, the combinator, a space, and the parts of the
  second selector, and sets the specificity to the larger of the two.
\<close>

definition cssSelectorBuilder_combine :: "Selector \<Rightarrow> string \<Rightarrow> Selector \<Rightarrow> Selector" where
  "cssSelectorBuilder_combine selector1 combinator selector2 =
     (let newSelector = new_Selector;
          newSelector = newSelector\<lparr>parts := parts newSelector @ parts selector1\<rparr>;
          newSelector = newSelector\<lparr>parts := parts newSelector @ ['' '']\<rparr>;
          newSelector = newSelector\<lparr>parts := parts newSelector @ [combinator]\<rparr>;
          newSelector = newSelector\<lparr>parts := parts newSelector @ ['' '']\<rparr>;
          newSelector = newSelector\<lparr>parts := parts newSelector @ parts selector2\<rparr>
      in newSelector\<lparr>specificity := max (specificity selector1) (specificity selector2)\<rparr>)"

subsection \<open>Call chains\<close>

text \<open>
  A chain of method calls on one builder, \<open>b.id(x).class(y)...\<close>, is the list of its
  calls, run from left to right until one throws.
\<close>

datatype call =
  Element string | Id string | Class string | Attr string | PseudoClass string
  | PseudoElement string

fun invoke :: "call \<Rightarrow> Selector \<Rightarrow> error + Selector" where
  "invoke (Element val) this = Selector_element val this"
| "invoke (Id val) this = Selector_id val this"
| "invoke (Class val) this = Selector_class val this"
| "invoke (Attr val) this = Selector_attr val this"
| "invoke (PseudoClass val) this = Selector_pseudoClass val this"
| "invoke (PseudoElement val) this = Selector_pseudoElement val this"

fun chain :: "call list \<Rightarrow> Selector \<Rightarrow> error + Selector" where
  "chain [] this = Inr this"
| "chain (c # cs) this = then_call (invoke c this) (chain cs)"

text \<open>
  The fragment a call stands for, in the words of the specification: the name alone for
  an element, and the prefixes \<open>#\<close>, \<open>.\<close>, \<open>[\<close> (closed by \<open>]\<close>), \<open>:\<close> and
  \<open>::\<close> for the other categories.
\<close>

fun fragment :: "call \<Rightarrow> string" where
  "fragment (Element val) = val"
| "fragment (Id val) = ''#'' @ val"
| "fragment (Class val) = ''.'' @ val"
| "fragment (Attr val) = ''['' @ val @ '']''"
| "fragment (PseudoClass val) = '':'' @ val"
| "fragment (PseudoElement val) = ''::'' @ val"

section \<open>Properties of the rectangle\<close>

text \<open>
  Claim C7. The object built by \<open>Rectangle(w, h)\<close> stores \<open>w\<close> as its width and
  \<open>h\<close> as its height, and its area operation returns \<open>w * h\<close>. This holds for all
  numbers, the non-negative ones among them.
\<close>

theorem Rectangle_area:
  "width (Rectangle w h) = w \<and> height (Rectangle w h) = h \<and> getArea (Rectangle w h) = w * h"
  by (simp add: Rectangle_def getArea_def)

lemma Rectangle_area_example: "getArea (Rectangle (10::int) 20) = 200"
  by (simp add: Rectangle_def getArea_def)

section \<open>Properties of the JSON conversion\<close>

subsection \<open>Property indices\<close>

lemma decimal_nonempty: "decimal n \<noteq> []"
  by (subst decimal.simps) simp

lemma digit_inj:
  "a < 10 \<Longrightarrow> b < 10 \<Longrightarrow> ''0123456789'' ! a = ''0123456789'' ! b \<Longrightarrow> a = b"
  by (subst (asm) nth_eq_iff_index_eq) simp_all

lemma decimal_inj: "decimal n = decimal m \<Longrightarrow> n = m"
proof (induction n arbitrary: m rule: decimal.induct)
  case (1 n)
  show ?case
  proof (cases "n < 10")
    case small: True
    show ?thesis
    proof (cases "m < 10")
      case True
      with small "1.prems" show ?thesis
        by (simp add: decimal.simps [of n] decimal.simps [of m] digit_inj)
    next
      case False
      with small "1.prems" decimal_nonempty [of "m div 10"] show ?thesis
        by (simp add: decimal.simps [of n] decimal.simps [of m])
    qed
  next
    case big: False
    show ?thesis
    proof (cases "m < 10")
      case True
      with big "1.prems" decimal_nonempty [of "n div 10"] show ?thesis
        by (simp add: decimal.simps [of n] decimal.simps [of m])
    next
      case False
      with big "1.prems" have eq: "decimal (n div 10) = decimal (m div 10)"
        and d: "''0123456789'' ! (n mod 10) = ''0123456789'' ! (m mod 10)"
        by (simp_all add: decimal.simps [of n] decimal.simps [of m])
      from "1.IH" [OF big eq] have "n div 10 = m div 10" .
      moreover from d have "n mod 10 = m mod 10"
        by (intro digit_inj) simp_all
      ultimately show ?thesis by (metis div_mult_mod_eq)
    qed
  qed
qed

lemma index_keys_distinct: "distinct (map decimal [0..<n])"
  by (auto simp: distinct_map intro!: inj_onI dest: decimal_inj)

lemma own_enumerable_distinct: "unique_keys v \<Longrightarrow> distinct (map fst (own_enumerable v))"
  by (cases v) (simp_all add: index_keys_distinct)

subsection \<open>Assigning properties\<close>

lemma define_own_fresh: "k \<notin> fst ` set ps \<Longrightarrow> define_own k x ps = ps @ [(k, x)]"
  by (induction ps) auto

lemma Set_property_fresh:
  assumes "k \<notin> fst ` set (own obj)" and "defines_own (chain_slot (prototype obj) k)"
  shows "Set_property obj (k, x) = Inr (obj\<lparr>own := own obj @ [(k, x)]\<rparr>)"
  using assms by (cases "chain_slot (prototype obj) k") (simp_all add: define_own_fresh)

lemma assign_fresh_keys:
  assumes "distinct (map fst (acc @ kvs))"
    and "\<forall>k \<in> fst ` set kvs. defines_own (chain_slot pr k)"
  shows "assign_all \<lparr>prototype = pr, own = acc\<rparr> kvs = Inr \<lparr>prototype = pr, own = acc @ kvs\<rparr>"
  using assms
proof (induction kvs arbitrary: acc)
  case Nil
  then show ?case by simp
next
  case (Cons kx kvs)
  obtain k x where kx: "kx = (k, x)" by (cases kx)
  from Cons.prems kx have fresh: "k \<notin> fst ` set (own \<lparr>prototype = pr, own = acc\<rparr>)"
    by auto
  from Cons.prems kx have "defines_own (chain_slot (prototype \<lparr>prototype = pr, own = acc\<rparr>) k)"
    by simp
  from Set_property_fresh [OF fresh this]
  have step: "Set_property \<lparr>prototype = pr, own = acc\<rparr> kx
      = Inr \<lparr>prototype = pr, own = acc @ [kx]\<rparr>"
    by (simp add: kx)
  from Cons.prems have "distinct (map fst ((acc @ [kx]) @ kvs))" by simp
  moreover from Cons.prems have "\<forall>k \<in> fst ` set kvs. defines_own (chain_slot pr k)"
    by simp
  ultimately show ?case using Cons.IH [of "acc @ [kx]"] step by (simp add: then_call_def)
qed

lemma assign_all_append:
  "assign_all obj (pre @ kvs) = then_call (assign_all obj pre) (\<lambda>obj. assign_all obj kvs)"
  by (induction pre arbitrary: obj) (auto simp: then_call_def split: sum.splits)

lemma parsed_chain_accepts:
  "is_parsed pr \<Longrightarrow> \<not> refuses (chain_slot pr k) \<and> \<not> runs_setter (chain_slot pr k)"
  by (cases pr) simp_all

lemma proto_setter_prototype:
  "prototype (proto_setter obj x) = prototype obj \<or> is_parsed (prototype (proto_setter obj x))"
  by (cases x) simp_all

lemma Set_property_prototype:
  "Set_property obj (k, x) = Inr obj' \<Longrightarrow> prototype obj' = prototype obj \<or> is_parsed (prototype obj')"
  using proto_setter_prototype [of obj x]
  by (auto simp: then_call_def split: if_splits slot.splits option.splits sum.splits)

lemma Set_property_accepted:
  assumes "\<not> refuses (chain_slot (prototype obj) k)"
    and "\<not> runs_setter (chain_slot (prototype obj) k)"
  shows "\<exists>obj'. Set_property obj (k, x) = Inr obj'"
  using assms by (cases "chain_slot (prototype obj) k") (auto split: option.splits)

lemma Set_property_refused:
  assumes "k \<notin> fst ` set (own obj)" and "refuses (chain_slot (prototype obj) k)"
  shows "Set_property obj (k, x) = Inl (TypeError k)"
  using assms by (cases "chain_slot (prototype obj) k") (auto split: option.splits)

lemma Set_property_failure:
  assumes "\<not> runs_setter (chain_slot (prototype obj) k)"
    and "Set_property obj (k, x) = Inl e"
  shows "e = TypeError k \<and> refuses (chain_slot (prototype obj) k)"
  using assms
  by (cases "chain_slot (prototype obj) k") (auto split: option.splits if_splits)

lemma assign_all_parsed:
  "is_parsed (prototype obj) \<Longrightarrow> \<exists>obj'. assign_all obj kvs = Inr obj'"
proof (induction kvs arbitrary: obj)
  case Nil
  then show ?case by simp
next
  case (Cons kx kvs)
  obtain k x where kx: "kx = (k, x)" by (cases kx)
  from parsed_chain_accepts [OF Cons.prems] Set_property_accepted
  obtain obj1 where step: "Set_property obj (k, x) = Inr obj1" by blast
  from Set_property_prototype [OF step] Cons.prems have "is_parsed (prototype obj1)"
    by auto
  from Cons.IH [OF this] step kx show ?case by (simp add: then_call_def)
qed

lemma assign_all_accepted:
  assumes "\<forall>k \<in> fst ` set kvs. \<not> refuses (chain_slot (prototype obj) k) \<and>
             \<not> runs_setter (chain_slot (prototype obj) k)"
  shows "\<exists>obj'. assign_all obj kvs = Inr obj'"
  using assms
proof (induction kvs arbitrary: obj)
  case Nil
  then show ?case by simp
next
  case (Cons kx kvs)
  obtain k x where kx: "kx = (k, x)" by (cases kx)
  from Cons.prems kx Set_property_accepted [of obj k x]
  obtain obj1 where step: "Set_property obj (k, x) = Inr obj1" by auto
  have "\<exists>obj'. assign_all obj1 kvs = Inr obj'"
  proof (cases "is_parsed (prototype obj1)")
    case True
    then show ?thesis by (rule assign_all_parsed)
  next
    case False
    with Set_property_prototype [OF step] have "prototype obj1 = prototype obj" by blast
    with Cons.prems show ?thesis by (intro Cons.IH) simp
  qed
  with step kx show ?case by (simp add: then_call_def)
qed

lemma assign_all_failure:
  assumes "\<forall>k \<in> fst ` set kvs. \<not> runs_setter (chain_slot (prototype obj) k)"
    and "assign_all obj kvs = Inl e"
  shows "\<exists>k \<in> fst ` set kvs. e = TypeError k \<and> refuses (chain_slot (prototype obj) k)"
  using assms
proof (induction kvs arbitrary: obj)
  case Nil
  then show ?case by simp
next
  case (Cons kx kvs)
  obtain k x where kx: "kx = (k, x)" by (cases kx)
  show ?case
  proof (cases "Set_property obj (k, x)")
    case (Inl e1)
    with Cons.prems kx have "e1 = e" by (simp add: then_call_def)
    moreover from Cons.prems kx have "\<not> runs_setter (chain_slot (prototype obj) k)" by simp
    ultimately show ?thesis using Set_property_failure [of obj k x e] Inl kx by auto
  next
    case (Inr obj1)
    with Cons.prems kx have rest: "assign_all obj1 kvs = Inl e" by (simp add: then_call_def)
    have same: "prototype obj1 = prototype obj"
    proof (rule ccontr)
      assume "prototype obj1 \<noteq> prototype obj"
      with Set_property_prototype [OF Inr] have "is_parsed (prototype obj1)" by blast
      from assign_all_parsed [OF this, of kvs] rest show False by simp
    qed
    with Cons.prems have "\<forall>k \<in> fst ` set kvs. \<not> runs_setter (chain_slot (prototype obj1) k)"
      by simp
    from Cons.IH [OF this rest] same show ?thesis by auto
  qed
qed

lemma assign_all_refused:
  assumes "distinct (map fst (pre @ [(k, x)]))"
    and "\<forall>k' \<in> fst ` set pre. defines_own (chain_slot pr k')"
    and "refuses (chain_slot pr k)"
  shows "assign_all \<lparr>prototype = pr, own = []\<rparr> (pre @ (k, x) # rest) = Inl (TypeError k)"
proof -
  from assms(1) have "distinct (map fst ([] @ pre))" by simp
  from assign_fresh_keys [OF this assms(2)]
  have pre: "assign_all \<lparr>prototype = pr, own = []\<rparr> pre = Inr \<lparr>prototype = pr, own = pre\<rparr>"
    by simp
  from assms(1) have "k \<notin> fst ` set (own \<lparr>prototype = pr, own = pre\<rparr>)" by auto
  moreover from assms(3) have "refuses (chain_slot (prototype \<lparr>prototype = pr, own = pre\<rparr>) k)"
    by simp
  ultimately have "Set_property \<lparr>prototype = pr, own = pre\<rparr> (k, x) = Inl (TypeError k)"
    by (rule Set_property_refused)
  with pre show ?thesis by (simp add: assign_all_append then_call_def)
qed

subsection \<open>The round trip\<close>

text \<open>
  Where every key of \<open>v\<close> is absent from the chain of the prototype or a writable data
  property there, the round trip holds: \<open>fromJSON(p, getJSON(v))\<close> has the prototype
  \<open>p\<close> and the fields of \<open>v\<close>, in order.
\<close>

lemma round_trip_on_plain_keys:
  assumes "JSON_parse (JSON_stringify v) = Inr v"
    and "unique_keys v"
    and "\<forall>k \<in> fst ` set (own_enumerable v). defines_own (chain_slot (Shape p) k)"
  shows "fromJSON JSON_parse p (getJSON JSON_stringify v)
           = Inr \<lparr>prototype = Shape p, own = own_enumerable v\<rparr>"
proof -
  have "distinct (map fst ([] @ own_enumerable v))"
    using own_enumerable_distinct [OF assms(2)] by simp
  from assign_fresh_keys [OF this assms(3)] assms(1) show ?thesis
    by (simp add: fromJSON_def getJSON_def Object_create_def Object_assign_def then_call_def)
qed

text \<open>
  Claim C8 says that \<open>fromJSON(p, getJSON(v))\<close> has the fields of \<open>v\<close> and inherits
  the methods of \<open>p\<close>, for every plain value \<open>v\<close>. The code does not do so for the
  object \<open>v = {"__proto__": {"x": 1}}\<close> that has this key as an own property (as
  \<open>JSON.parse\<close> builds it) and \<open>p = Rectangle.prototype\<close>. The value is written as
  the text \<open>{"__proto__":{"x":1}}\<close> and parsed back to itself; \<open>Object.assign\<close>
  then runs the \<open>__proto__\<close> setter of \<open>Object.prototype\<close> instead of defining a
  field. The object returned has no own field, and its prototype is \<open>{"x": 1}\<close>: it
  is not of the type asked for, as the comment of \<open>fromJSON\<close> promises, and has lost
  \<open>getArea\<close>. Below, \<open>JSON.stringify\<close> and \<open>JSON.parse\<close> are given by what they
  return on this value and this text.
\<close>

theorem round_trip_fails_on_proto_key:
  \<open>let v = JObject [(''__proto__'', JObject [(''x'', JNumber (1::int))])];
       p = \<lparr>properties = (\<lambda>k. if k = ''constructor'' \<or> k = ''getArea'' then Data True
                                else Absent),
            inherits_Object_prototype = True\<rparr>;
       JSON_stringify = (\<lambda>x. ''{"__proto__":{"x":1}}'');
       JSON_parse = (\<lambda>t. if t = ''{"__proto__":{"x":1}}'' then Inr v
                          else Inl (SyntaxError ''Unexpected token''))
   in JSON_parse (JSON_stringify v) = Inr v \<and> unique_keys v \<and>
      own_enumerable v = [(''__proto__'', JObject [(''x'', JNumber 1)])] \<and>
      fromJSON JSON_parse p (getJSON JSON_stringify v)
        = Inr \<lparr>prototype = Plain (JObject [(''x'', JNumber 1)]), own = []\<rparr> \<and>
      fromJSON JSON_parse p (getJSON JSON_stringify v)
        \<noteq> Inr \<lparr>prototype = Shape p, own = own_enumerable v\<rparr>\<close>
  by (simp add: fromJSON_def getJSON_def Object_create_def Object_assign_def then_call_def)

subsection \<open>Failures\<close>

text \<open>
  Claim C9, as the specification states it, fails: on valid JSON \<open>fromJSON\<close> does not
  always return. For the prototype of \<open>class P { get area() {...} }\<close>, which has a
  getter and no setter under \<open>area\<close>, and the valid text \<open>{"area":5}\<close>,
  \<open>Object.assign\<close> throws a \<open>TypeError\<close>. Below, \<open>JSON.parse\<close> is given by what it
  returns on this text.
\<close>

theorem fromJSON_throws_on_valid_JSON:
  \<open>let p = \<lparr>properties = (\<lambda>k. if k = ''area'' then Accessor None
                                else if k = ''constructor'' then Data True else Absent),
            inherits_Object_prototype = True\<rparr>;
       JSON_parse = (\<lambda>t. if t = ''{"area":5}'' then Inr (JObject [(''area'', JNumber (5::int))])
                          else Inl (SyntaxError ''Unexpected token''))
   in JSON_parse ''{"area":5}'' = Inr (JObject [(''area'', JNumber 5)]) \<and>
      fromJSON JSON_parse p ''{"area":5}'' = Inl (TypeError ''area'')\<close>
  by (simp add: fromJSON_def Object_create_def Object_assign_def then_call_def)

text \<open>
  Claim C9, amended. \<open>fromJSON(proto, json)\<close> throws the error of \<open>JSON.parse\<close>,
  unchanged and uncaught, when the text is not valid JSON. On valid JSON it returns an
  object when no own key of the parsed value names, in the chain of \<open>proto\<close>, a
  read-only property, a getter without a setter, or a setter. It throws a \<open>TypeError\<close>
  instead when it reaches a key that names a read-only property or a getter without a
  setter there, the keys before it being absent from the chain or writable. And when no
  key names a setter, such a \<open>TypeError\<close> is the only failure on valid JSON.
\<close>

theorem fromJSON_failures:
  "(JSON_parse json = Inl e \<longrightarrow> fromJSON JSON_parse proto json = Inl e) \<and>
   (JSON_parse json = Inr v \<and>
    (\<forall>k \<in> fst ` set (own_enumerable v).
        \<not> refuses (chain_slot (Shape proto) k) \<and> \<not> runs_setter (chain_slot (Shape proto) k))
      \<longrightarrow> (\<exists>obj. fromJSON JSON_parse proto json = Inr obj)) \<and>
   (JSON_parse json = Inr v \<and> unique_keys v \<and> own_enumerable v = pre @ (k, x) # rest \<and>
    (\<forall>k' \<in> fst ` set pre. defines_own (chain_slot (Shape proto) k')) \<and>
    refuses (chain_slot (Shape proto) k)
      \<longrightarrow> fromJSON JSON_parse proto json = Inl (TypeError k)) \<and>
   (JSON_parse json = Inr v \<and> fromJSON JSON_parse proto json = Inl e' \<and>
    (\<forall>k \<in> fst ` set (own_enumerable v). \<not> runs_setter (chain_slot (Shape proto) k))
      \<longrightarrow> (\<exists>k \<in> fst ` set (own_enumerable v).
            e' = TypeError k \<and> refuses (chain_slot (Shape proto) k)))"
proof (intro conjI impI)
  assume "JSON_parse json = Inl e"
  then show "fromJSON JSON_parse proto json = Inl e"
    by (simp add: fromJSON_def then_call_def)
next
  assume h: "JSON_parse json = Inr v \<and>
    (\<forall>k \<in> fst ` set (own_enumerable v).
        \<not> refuses (chain_slot (Shape proto) k) \<and> \<not> runs_setter (chain_slot (Shape proto) k))"
  then have "\<forall>k \<in> fst ` set (own_enumerable v).
      \<not> refuses (chain_slot (prototype (Object_create proto :: 'a object)) k) \<and>
      \<not> runs_setter (chain_slot (prototype (Object_create proto :: 'a object)) k)"
    by (simp add: Object_create_def)
  from assign_all_accepted [OF this] h show "\<exists>obj. fromJSON JSON_parse proto json = Inr obj"
    by (auto simp: fromJSON_def Object_assign_def then_call_def)
next
  assume h: "JSON_parse json = Inr v \<and> unique_keys v \<and> own_enumerable v = pre @ (k, x) # rest \<and>
    (\<forall>k' \<in> fst ` set pre. defines_own (chain_slot (Shape proto) k')) \<and>
    refuses (chain_slot (Shape proto) k)"
  with own_enumerable_distinct [of v] have "distinct (map fst (pre @ [(k, x)]))" by simp
  from assign_all_refused [OF this, of "Shape proto" rest] h
  show "fromJSON JSON_parse proto json = Inl (TypeError k)"
    by (simp add: fromJSON_def Object_assign_def Object_create_def then_call_def)
next
  assume h: "JSON_parse json = Inr v \<and> fromJSON JSON_parse proto json = Inl e' \<and>
    (\<forall>k \<in> fst ` set (own_enumerable v). \<not> runs_setter (chain_slot (Shape proto) k))"
  then have fail: "assign_all (Object_create proto) (own_enumerable v) = Inl e'"
    by (auto simp: fromJSON_def Object_assign_def then_call_def split: sum.splits)
  from h have "\<forall>k \<in> fst ` set (own_enumerable v).
      \<not> runs_setter (chain_slot (prototype (Object_create proto :: 'a object)) k)"
    by (simp add: Object_create_def)
  from assign_all_failure [OF this fail]
  show "\<exists>k \<in> fst ` set (own_enumerable v). e' = TypeError k \<and> refuses (chain_slot (Shape proto) k)"
    by (simp add: Object_create_def)
qed

text \<open>
  The amended claim at three calls: a text that is not JSON; the text
  \<open>{"width":10,"height":20}\<close> with the prototype of \<open>Rectangle\<close>; and the text
  \<open>{"width":1,"area":5}\<close> with a prototype that has a getter alone under \<open>area\<close>.
\<close>

theorem fromJSON_failures_witness:
  \<open>let rect = \<lparr>properties = (\<lambda>k. if k = ''constructor'' \<or> k = ''getArea'' then Data True
                                   else Absent),
               inherits_Object_prototype = True\<rparr>;
       getter = \<lparr>properties = (\<lambda>k. if k = ''area'' then Accessor None
                                     else if k = ''constructor'' then Data True else Absent),
                 inherits_Object_prototype = True\<rparr>;
       JSON_parse = (\<lambda>t.
         if t = ''{"width":10,"height":20}''
         then Inr (JObject [(''width'', JNumber (10::int)), (''height'', JNumber 20)])
         else if t = ''{"width":1,"area":5}''
         then Inr (JObject [(''width'', JNumber 1), (''area'', JNumber 5)])
         else Inl (SyntaxError ''Unexpected token''))
   in fromJSON JSON_parse rect ''{"width":'' = Inl (SyntaxError ''Unexpected token'') \<and>
      fromJSON JSON_parse rect ''{"width":10,"height":20}''
        = Inr \<lparr>prototype = Shape rect,
               own = [(''width'', JNumber 10), (''height'', JNumber 20)]\<rparr> \<and>
      fromJSON JSON_parse getter ''{"width":1,"area":5}'' = Inl (TypeError ''area'') \<and>
      refuses (chain_slot (Shape getter) ''area'')\<close>
proof -
  let ?rect = "\<lparr>properties = (\<lambda>k. if k = ''constructor'' \<or> k = ''getArea'' then Data True
                                   else Absent) :: string \<Rightarrow> int slot,
               inherits_Object_prototype = True\<rparr>"
  let ?getter = "\<lparr>properties = (\<lambda>k. if k = ''area'' then Accessor None
                                     else if k = ''constructor'' then Data True else Absent)
                   :: string \<Rightarrow> int slot,
                 inherits_Object_prototype = True\<rparr>"
  let ?tR = \<open>''{"width":10,"height":20}''\<close>
  let ?tA = \<open>''{"width":1,"area":5}''\<close>
  let ?tX = \<open>''{"width":''\<close>
  let ?vR = "JObject [(''width'', JNumber (10::int)), (''height'', JNumber 20)]"
  let ?vA = "JObject [(''width'', JNumber (1::int)), (''area'', JNumber 5)]"
  let ?parse = "\<lambda>t. if t = ?tR then Inr ?vR else if t = ?tA then Inr ?vA
                     else Inl (SyntaxError ''Unexpected token'')"
  have bad: "?parse ?tX = Inl (SyntaxError ''Unexpected token'')" by simp
  have okR: "?parse ?tR = Inr ?vR \<and>
      (\<forall>k \<in> fst ` set (own_enumerable ?vR).
         \<not> refuses (chain_slot (Shape ?rect) k) \<and> \<not> runs_setter (chain_slot (Shape ?rect) k))"
    by simp
  have okA: "?parse ?tA = Inr ?vA \<and> unique_keys ?vA \<and>
      own_enumerable ?vA = [(''width'', JNumber 1)] @ (''area'', JNumber 5) # [] \<and>
      (\<forall>k' \<in> fst ` set [(''width'', JNumber (1::int))].
         defines_own (chain_slot (Shape ?getter) k')) \<and>
      refuses (chain_slot (Shape ?getter) ''area'')"
    by simp
  note invalid = fromJSON_failures
    [of ?parse ?tX "SyntaxError ''Unexpected token''" ?rect, THEN conjunct1, THEN mp]
  note valid = fromJSON_failures
    [of ?parse ?tR _ ?rect ?vR, THEN conjunct2, THEN conjunct1, THEN mp]
  note refused = fromJSON_failures
    [of ?parse ?tA _ ?getter ?vA "[(''width'', JNumber 1)]" "''area''" "JNumber 5" "[]",
     THEN conjunct2, THEN conjunct2, THEN conjunct1, THEN mp]
  have 1: "fromJSON ?parse ?rect ?tX = Inl (SyntaxError ''Unexpected token'')"
    by (rule invalid) (rule bad)
  have 2: "\<exists>obj. fromJSON ?parse ?rect ?tR = Inr obj"
    by (rule valid) (rule okR)
  have 3: "fromJSON ?parse ?getter ?tA = Inl (TypeError ''area'')"
    by (rule refused) (rule okA)
  have full: "fromJSON ?parse ?rect ?tR
      = Inr \<lparr>prototype = Shape ?rect, own = [(''width'', JNumber 10), (''height'', JNumber 20)]\<rparr>"
    using 2 by (simp add: fromJSON_def Object_create_def Object_assign_def then_call_def)
  have r: "refuses (chain_slot (Shape ?getter) ''area'')" by simp
  show ?thesis
    unfolding Let_def by (intro conjI) (rule 1, rule full, rule 3, rule r)
qed

section \<open>Properties of the selector builder\<close>

lemmas method_defs =
  Selector_element_def Selector_id_def Selector_class_def Selector_attr_def
  Selector_pseudoClass_def Selector_pseudoElement_def checkDuplicate_def then_call_def

lemmas facade_defs =
  cssSelectorBuilder_element_def cssSelectorBuilder_id_def cssSelectorBuilder_class_def
  cssSelectorBuilder_attr_def cssSelectorBuilder_pseudoClass_def
  cssSelectorBuilder_pseudoElement_def new_Selector_def

subsection \<open>What a successful call does\<close>

lemma invoke_parts: "invoke c s = Inr s' \<Longrightarrow> parts s' = parts s @ [fragment c]"
  by (cases c) (auto simp: method_defs split: if_splits)

lemma invoke_seen_mono: "invoke c s = Inr s' \<Longrightarrow> seen s \<subseteq> seen s'"
  by (cases c) (auto simp: method_defs split: if_splits)

lemma chain_parts: "chain cs s = Inr s' \<Longrightarrow> parts s' = parts s @ map fragment cs"
proof (induction cs arbitrary: s)
  case Nil
  then show ?case by simp
next
  case (Cons c cs)
  then obtain s1 where 1: "invoke c s = Inr s1" and 2: "chain cs s1 = Inr s'"
    by (auto simp: then_call_def split: sum.splits)
  show ?case using invoke_parts [OF 1] Cons.IH [OF 2] by simp
qed

lemma chain_seen_mono: "chain cs s = Inr s' \<Longrightarrow> seen s \<subseteq> seen s'"
proof (induction cs arbitrary: s)
  case Nil
  then show ?case by simp
next
  case (Cons c cs)
  then obtain s1 where 1: "invoke c s = Inr s1" and 2: "chain cs s1 = Inr s'"
    by (auto simp: then_call_def split: sum.splits)
  show ?case using invoke_seen_mono [OF 1] Cons.IH [OF 2] by blast
qed

lemma element_seen_throws:
  "''element'' \<in> seen s \<Longrightarrow> Selector_element b s = Inl (Error duplicate_message)"
  by (simp add: method_defs)

lemma id_seen_throws:
  "''id'' \<in> seen s \<Longrightarrow> Selector_id b s = Inl (Error duplicate_message)"
  by (simp add: method_defs)

lemma pseudoElement_seen_throws:
  "''psuedoElement'' \<in> seen s
     \<Longrightarrow> Selector_pseudoElement b s = Inl (Error duplicate_message)"
  by (simp add: method_defs)

subsection \<open>Repeated classes, attributes and pseudo-classes\<close>

text \<open>
  Claim C1 says that \<open>id('main').class('container').class('editable').stringify()\<close>
  returns \<open>#main.container.editable\<close>, as the comment above the class gives it. The
  code throws at the second \<open>class\<close> call instead: \<open>class\<close> registers its category
  with \<open>_checkDuplicate\<close>, which refuses the category the second time.
\<close>

theorem id_class_class_throws:
  "then_call
     (then_call (then_call (cssSelectorBuilder_id ''main'') (Selector_class ''container''))
        (Selector_class ''editable''))
     (\<lambda>s. Inr (fst (Selector_stringify s)))
   = Inl (Error duplicate_message)"
  by (simp add: method_defs facade_defs)

text \<open>
  Claim C2 says that \<open>class('a').class('b')\<close> succeeds and stringifies to \<open>.a.b\<close>. The
  code throws at the second call.
\<close>

theorem class_twice_throws:
  "then_call (then_call (cssSelectorBuilder_class ''a'') (Selector_class ''b''))
     (\<lambda>s. Inr (fst (Selector_stringify s)))
   = Inl (Error duplicate_message)"
  by (simp add: method_defs facade_defs)

text \<open>On no builder do two \<open>class\<close> calls in a row succeed.\<close>

lemma class_repeated_never_succeeds:
  "then_call (Selector_class a this) (Selector_class b) = Inl (Error duplicate_message)"
  by (simp add: method_defs)

text \<open>
  Claim C3 says that a second \<open>attr\<close> call, and a second \<open>pseudoClass\<close> call, succeeds
  and appends a further fragment. The code throws at the second call of either.
\<close>

theorem attr_pseudoClass_twice_throw:
  "then_call (cssSelectorBuilder_attr ''href'') (Selector_attr ''title'')
     = Inl (Error duplicate_message) \<and>
   then_call (cssSelectorBuilder_pseudoClass ''hover'') (Selector_pseudoClass ''focus'')
     = Inl (Error duplicate_message)"
  by (simp add: method_defs facade_defs)

text \<open>On no builder do two \<open>attr\<close> calls, or two \<open>pseudoClass\<close> calls, in a row succeed.\<close>

lemma attr_pseudoClass_repeated_never_succeed:
  "then_call (Selector_attr a this) (Selector_attr b) = Inl (Error duplicate_message) \<and>
   then_call (Selector_pseudoClass a this) (Selector_pseudoClass b)
     = Inl (Error duplicate_message)"
  by (simp add: method_defs)

subsection \<open>Unique parts\<close>

text \<open>
  Claim C4. Once an element has been added to a builder, a later \<open>element\<close> call on it,
  after any further successful calls, throws at that call the error with the fixed
  message that element, id and pseudo-element should not occur more than one time; the
  same holds for \<open>id\<close> and for \<open>pseudoElement\<close>. In particular
  \<open>element('a').element('b')\<close> throws this error.
\<close>

theorem second_unique_part_throws:
  "(Selector_element a s = Inr s1 \<and> chain cs s1 = Inr s2
      \<longrightarrow> Selector_element b s2 = Inl (Error duplicate_message)) \<and>
   (Selector_id a s = Inr s1 \<and> chain cs s1 = Inr s2
      \<longrightarrow> Selector_id b s2 = Inl (Error duplicate_message)) \<and>
   (Selector_pseudoElement a s = Inr s1 \<and> chain cs s1 = Inr s2
      \<longrightarrow> Selector_pseudoElement b s2 = Inl (Error duplicate_message)) \<and>
   then_call (cssSelectorBuilder_element ''a'') (Selector_element ''b'')
     = Inl (Error duplicate_message) \<and>
   duplicate_message =
     ''Element, id and pseudo-element should not occur more than one time inside the selector''"
proof (intro conjI impI)
  assume h: "Selector_element a s = Inr s1 \<and> chain cs s1 = Inr s2"
  then have "''element'' \<in> seen s1" by (auto simp: method_defs split: if_splits)
  with h chain_seen_mono have "''element'' \<in> seen s2" by blast
  then show "Selector_element b s2 = Inl (Error duplicate_message)"
    by (rule element_seen_throws)
next
  assume h: "Selector_id a s = Inr s1 \<and> chain cs s1 = Inr s2"
  then have "''id'' \<in> seen s1" by (auto simp: method_defs split: if_splits)
  with h chain_seen_mono have "''id'' \<in> seen s2" by blast
  then show "Selector_id b s2 = Inl (Error duplicate_message)"
    by (rule id_seen_throws)
next
  assume h: "Selector_pseudoElement a s = Inr s1 \<and> chain cs s1 = Inr s2"
  then have "''psuedoElement'' \<in> seen s1" by (auto simp: method_defs split: if_splits)
  with h chain_seen_mono have "''psuedoElement'' \<in> seen s2" by blast
  then show "Selector_pseudoElement b s2 = Inl (Error duplicate_message)"
    by (rule pseudoElement_seen_throws)
next
  show "then_call (cssSelectorBuilder_element ''a'') (Selector_element ''b'')
     = Inl (Error duplicate_message)"
    by (simp add: method_defs facade_defs)
next
  show "duplicate_message =
     ''Element, id and pseudo-element should not occur more than one time inside the selector''"
    by (simp add: duplicate_message_def)
qed

text \<open>
  The three cases at concrete builders: an element, then a class, then a second element;
  an id and at once a second id; a pseudo-element and at once a second one.
\<close>

theorem second_unique_part_throws_witness:
  "Selector_element ''a'' new_Selector
     = Inr \<lparr>specificity = 1, parts = [''a''], seen = {''element''}\<rparr> \<and>
   chain [Class ''x''] \<lparr>specificity = 1, parts = [''a''], seen = {''element''}\<rparr>
     = Inr \<lparr>specificity = 11, parts = [''a'', ''.x''], seen = {''class'', ''element''}\<rparr> \<and>
   Selector_element ''b''
       \<lparr>specificity = 11, parts = [''a'', ''.x''], seen = {''class'', ''element''}\<rparr>
     = Inl (Error duplicate_message) \<and>
   Selector_id ''a'' new_Selector
     = Inr \<lparr>specificity = 100, parts = [''#a''], seen = {''id''}\<rparr> \<and>
   chain [] \<lparr>specificity = 100, parts = [''#a''], seen = {''id''}\<rparr>
     = Inr \<lparr>specificity = 100, parts = [''#a''], seen = {''id''}\<rparr> \<and>
   Selector_id ''b'' \<lparr>specificity = 100, parts = [''#a''], seen = {''id''}\<rparr>
     = Inl (Error duplicate_message) \<and>
   Selector_pseudoElement ''a'' new_Selector
     = Inr \<lparr>specificity = 0, parts = [''::a''], seen = {''psuedoElement''}\<rparr> \<and>
   chain [] \<lparr>specificity = 0, parts = [''::a''], seen = {''psuedoElement''}\<rparr>
     = Inr \<lparr>specificity = 0, parts = [''::a''], seen = {''psuedoElement''}\<rparr> \<and>
   Selector_pseudoElement ''b''
       \<lparr>specificity = 0, parts = [''::a''], seen = {''psuedoElement''}\<rparr>
     = Inl (Error duplicate_message)"
proof -
  let ?e1 = "\<lparr>specificity = 1, parts = [''a''], seen = {''element''}\<rparr>"
  let ?e2 = "\<lparr>specificity = 11, parts = [''a'', ''.x''], seen = {''class'', ''element''}\<rparr>"
  let ?i1 = "\<lparr>specificity = 100, parts = [''#a''], seen = {''id''}\<rparr>"
  let ?p1 = "\<lparr>specificity = 0, parts = [''::a''], seen = {''psuedoElement''}\<rparr>"
  have e: "Selector_element ''a'' new_Selector = Inr ?e1" "chain [Class ''x''] ?e1 = Inr ?e2"
    by (simp_all add: method_defs new_Selector_def insert_commute)
  have i: "Selector_id ''a'' new_Selector = Inr ?i1" "chain [] ?i1 = Inr ?i1"
    by (simp_all add: method_defs new_Selector_def)
  have p: "Selector_pseudoElement ''a'' new_Selector = Inr ?p1" "chain [] ?p1 = Inr ?p1"
    by (simp_all add: method_defs new_Selector_def)
  show ?thesis
    using e i p
      second_unique_part_throws [of "''a''" new_Selector ?e1 "[Class ''x'']" ?e2 "''b''"]
      second_unique_part_throws [of "''a''" new_Selector ?i1 "[]" ?i1 "''b''"]
      second_unique_part_throws [of "''a''" new_Selector ?p1 "[]" ?p1 "''b''"]
    by blast
qed

subsection \<open>Combination\<close>

text \<open>
  Claim C5. For any two selectors and any combinator \<open>c\<close>, the combined selector
  stringifies to the text of the left one, a space, \<open>c\<close>, a space, and the text of the
  right one; in particular
  \<open>combine(element('div').id('main'), '+', element('table').id('data'))\<close> stringifies to
  \<open>div#main + table#data\<close>.
\<close>

theorem combine_stringify:
  "fst (Selector_stringify (cssSelectorBuilder_combine left c right))
     = fst (Selector_stringify left) @ '' '' @ c @ '' '' @ fst (Selector_stringify right) \<and>
   then_call (then_call (cssSelectorBuilder_element ''div'') (Selector_id ''main''))
     (\<lambda>l. then_call (then_call (cssSelectorBuilder_element ''table'') (Selector_id ''data''))
       (\<lambda>r. Inr (fst (Selector_stringify (cssSelectorBuilder_combine l ''+'' r)))))
     = Inr ''div#main + table#data''"
  by (simp add: Selector_stringify_def cssSelectorBuilder_combine_def method_defs facade_defs)

subsection \<open>Stringification\<close>

text \<open>
  Claim C6. After any chain of successful calls on a builder, \<open>stringify()\<close> returns
  what it returned before the chain followed by the fragments of the calls in call
  order, with nothing between them. It leaves the builder as it was: a second
  \<open>stringify()\<close> returns the same string, the parts are unchanged, and every further
  call does what it would have done without the \<open>stringify()\<close>.
\<close>

theorem stringify_call_order:
  assumes "chain cs s0 = Inr s"
  shows "Selector_stringify s = (fst (Selector_stringify s0) @ concat (map fragment cs), s) \<and>
         Selector_stringify (snd (Selector_stringify s)) = Selector_stringify s \<and>
         parts (snd (Selector_stringify s)) = parts s \<and>
         invoke c (snd (Selector_stringify s)) = invoke c s"
  using chain_parts [OF assms] by (simp add: Selector_stringify_def)

text \<open>The chain \<open>element('a').attr('href').pseudoClass('focus')\<close> on a new builder.\<close>

theorem stringify_call_order_witness:
  "chain [Element ''a'', Attr ''href'', PseudoClass ''focus''] new_Selector
     = Inr \<lparr>specificity = 3, parts = [''a'', ''[href]'', '':focus''],
            seen = {''pseudoClass'', ''attr'', ''element''}\<rparr> \<and>
   Selector_stringify \<lparr>specificity = 3, parts = [''a'', ''[href]'', '':focus''],
            seen = {''pseudoClass'', ''attr'', ''element''}\<rparr>
     = (''a[href]:focus'', \<lparr>specificity = 3, parts = [''a'', ''[href]'', '':focus''],
            seen = {''pseudoClass'', ''attr'', ''element''}\<rparr>)"
proof -
  let ?s = "\<lparr>specificity = 3, parts = [''a'', ''[href]'', '':focus''],
            seen = {''pseudoClass'', ''attr'', ''element''}\<rparr>"
  have h: "chain [Element ''a'', Attr ''href'', PseudoClass ''focus''] new_Selector = Inr ?s"
    by (simp add: method_defs new_Selector_def)
  from stringify_call_order [OF h] h show ?thesis
    by (simp add: Selector_stringify_def new_Selector_def)
qed

subsection \<open>The empty element of the facade\<close>

lemma facade_element_seen:
  assumes "(entry, c) \<in> {(cssSelectorBuilder_id, Id), (cssSelectorBuilder_class, Class),
             (cssSelectorBuilder_attr, Attr), (cssSelectorBuilder_pseudoClass, PseudoClass),
             (cssSelectorBuilder_pseudoElement, PseudoElement)}"
  shows "\<exists>s. entry val = Inr s \<and> chain [Element '''', c val] new_Selector = Inr s \<and>
           parts s = ['''', fragment (c val)] \<and> ''element'' \<in> seen s"
  using assms by (auto simp: method_defs facade_defs)

text \<open>
  Claim C10. Each facade entry point other than \<open>element\<close> runs \<open>element("")\<close> on
  a new builder before the call asked for, and returns a builder whose first part is
  the empty string, recorded as its element, followed by the fragment asked for. The
  empty part does not show in the stringified output, and an \<open>element\<close> call on the
  returned builder, after any further successful calls, throws the duplicate-part
  error.
\<close>

theorem facade_entry_blocks_element:
  assumes "(entry, c) \<in> {(cssSelectorBuilder_id, Id), (cssSelectorBuilder_class, Class),
             (cssSelectorBuilder_attr, Attr), (cssSelectorBuilder_pseudoClass, PseudoClass),
             (cssSelectorBuilder_pseudoElement, PseudoElement)}"
  shows "\<exists>s. entry val = Inr s \<and> chain [Element '''', c val] new_Selector = Inr s \<and>
           parts s = ['''', fragment (c val)] \<and> ''element'' \<in> seen s \<and>
           fst (Selector_stringify s) = fragment (c val) \<and>
           (\<forall>cs s'. chain cs s = Inr s'
              \<longrightarrow> Selector_element name s' = Inl (Error duplicate_message))"
proof -
  from facade_element_seen [OF assms] obtain s where
    s: "entry val = Inr s" "chain [Element '''', c val] new_Selector = Inr s"
      "parts s = ['''', fragment (c val)]" "''element'' \<in> seen s"
    by blast
  have "Selector_element name s' = Inl (Error duplicate_message)"
    if "chain cs s = Inr s'" for cs s'
    using chain_seen_mono [OF that] s(4) by (intro element_seen_throws) blast
  with s show ?thesis by (auto simp: Selector_stringify_def)
qed

text \<open>The chain \<open>id('main').class('container').element('div')\<close> from the facade.\<close>

theorem facade_entry_blocks_element_witness:
  "\<exists>s s'. cssSelectorBuilder_id ''main'' = Inr s \<and> parts s = ['''', ''#main''] \<and>
     chain [Class ''container''] s = Inr s' \<and>
     fst (Selector_stringify s') = ''#main.container'' \<and>
     Selector_element ''div'' s' = Inl (Error duplicate_message)"
proof -
  have "(cssSelectorBuilder_id, Id) \<in> {(cssSelectorBuilder_id, Id),
      (cssSelectorBuilder_class, Class), (cssSelectorBuilder_attr, Attr),
      (cssSelectorBuilder_pseudoClass, PseudoClass),
      (cssSelectorBuilder_pseudoElement, PseudoElement)}"
    by simp
  from facade_entry_blocks_element [OF this, of "''main''" "''div''"]
  obtain s where s: "cssSelectorBuilder_id ''main'' = Inr s"
    and block: "\<And>cs s'. chain cs s = Inr s'
      \<Longrightarrow> Selector_element ''div'' s' = Inl (Error duplicate_message)"
    by blast
  from s(1) have s_eq: "s = \<lparr>specificity = 101, parts = ['''', ''#main''],
      seen = {''id'', ''element''}\<rparr>"
    by (simp add: method_defs facade_defs)
  obtain s' where s': "chain [Class ''container''] s = Inr s'"
    "fst (Selector_stringify s') = ''#main.container''"
    unfolding s_eq by (simp add: method_defs Selector_stringify_def)
  from block [OF s'(1)] s s' s_eq show ?thesis by auto
qed

end
